theory Spec2Isabelle
  imports Main "HOL-Library.AList" "HOL-Library.Sublist"
begin

section \<open>Strings\<close>

text \<open>
  A Python \<open>str\<close> is modelled as a \<open>string\<close>; each \<open>char\<close> stands for one code point
  below 256.  The backslash cannot be written inside a string literal, so it gets a name.
\<close>

definition backslash :: char where
  "backslash = CHR 0x5C"

definition DIGITS :: string where
  "DIGITS = ''0123456789''"

definition ASCIILETTERS :: string where
  "ASCIILETTERS = ''abcdefghijklmnopqrstuvwxyzABCDEFGHIJKLMNOPQRSTUVWXYZ''"

text \<open>\<open>s.split(sep)\<close> with a one-character separator: empty pieces are kept, and the
  result is never the empty list.\<close>

fun split_on :: "char \<Rightarrow> string \<Rightarrow> string list" where
  "split_on sep [] = [[]]"
| "split_on sep (c # cs) =
     (if c = sep then [] # split_on sep cs
      else (case split_on sep cs of [] \<Rightarrow> [[c]] | w # ws \<Rightarrow> (c # w) # ws))"

text \<open>\<open>sep.join(xs)\<close>.\<close>

fun join :: "string \<Rightarrow> string list \<Rightarrow> string" where
  "join sep [] = []"
| "join sep [x] = x"
| "join sep (x # y # zs) = x @ sep @ join sep (y # zs)"

text \<open>\<open>str.upper\<close> on the ASCII letters; no other character below 256 has an upper case
  that is an ASCII letter, so the lookup of a type tag is decided by this part alone.\<close>

definition upper_char :: "char \<Rightarrow> char" where
  "upper_char c =
     (if of_char (CHR ''a'') \<le> (of_char c :: nat) \<and> (of_char c :: nat) \<le> of_char (CHR ''z'')
      then char_of ((of_char c :: nat) - 32) else c)"

definition upper :: "string \<Rightarrow> string" where
  "upper s = map upper_char s"


section \<open>The regular expressions of the standard library\<close>

text \<open>
  \<open>re.compile\<close> and \<open>Pattern.match\<close> belong to the Python standard library, not to the
  router.  They are modelled for the fragment of the pattern language that the four variable
  types and ordinary path literals use: literal characters, \<open>.\<close>, the escapes \<open>\d\<close>, \<open>\D\<close> and
  backslash followed by a non-alphanumeric character, character sets \<open>[...]\<close> with ranges and
  negation, capturing groups, alternation, the anchors \<open>^\<close> and \<open>$\<close>, and the repeats
  \<open>*\<close>, \<open>+\<close>, \<open>?\<close>, \<open>{m}\<close>, \<open>{m,}\<close>, \<open>{,n}\<close>, \<open>{m,n}\<close> (a lazy \<open>?\<close> suffix does not change
  whether a match exists).  \<open>re_compile\<close> yields \<open>None\<close> where the library raises
  \<open>re.error\<close> and also for a pattern outside this fragment.
\<close>

datatype category = CATEGORY_DIGIT | CATEGORY_NOT_DIGIT

datatype setitem = LITERAL char | RANGE char char | CATEGORY category

datatype atom = Lit char | ANY | IN bool "setitem list"

datatype regex =
    Atom atom
  | AT_BEGINNING
  | AT_END
  | Epsilon
  | Seq regex regex
  | Alt regex regex
  | SUBPATTERN regex
  | MAX_REPEAT nat "nat option" regex

datatype token =
    TAtom atom
  | TBol
  | TEol
  | TRepeat nat "nat option"
  | TBar
  | TOpen
  | TClose

definition MAXREPEAT :: nat where
  "MAXREPEAT = 4294967295"

subsection \<open>Reading a pattern\<close>

definition escape :: "char \<Rightarrow> atom option" where
  "escape e =
     (if e = CHR ''d'' then Some (IN False [CATEGORY CATEGORY_DIGIT])
      else if e = CHR ''D'' then Some (IN False [CATEGORY CATEGORY_NOT_DIGIT])
      else if e \<in> set ASCIILETTERS \<or> e \<in> set DIGITS then None
      else Some (Lit e))"

definition class_escape :: "char \<Rightarrow> setitem option" where
  "class_escape e =
     (if e = CHR ''d'' then Some (CATEGORY CATEGORY_DIGIT)
      else if e = CHR ''D'' then Some (CATEGORY CATEGORY_NOT_DIGIT)
      else if e \<in> set ASCIILETTERS \<or> e \<in> set DIGITS then None
      else Some (LITERAL e))"

text \<open>One member of a character set: the character \<open>c\<close> just read and the text after it.\<close>

definition set_code :: "char \<Rightarrow> string \<Rightarrow> (setitem \<times> string) option" where
  "set_code c cs =
     (if c = backslash
      then (case cs of [] \<Rightarrow> None
            | e # r \<Rightarrow> (case class_escape e of None \<Rightarrow> None | Some i \<Rightarrow> Some (i, r)))
      else Some (LITERAL c, cs))"

lemma set_code_length: "set_code c cs = Some (i, r) \<Longrightarrow> length r \<le> length cs"
  by (auto simp: set_code_def split: if_splits list.splits option.splits)

text \<open>One step inside a character set: the member or range that starts with the
  character \<open>c\<close> just read.  The result holds the members to add, the text that is left,
  and whether the step also consumed the closing \<open>]\<close> (a trailing \<open>-\<close> does).\<close>

definition set_member :: "char \<Rightarrow> string \<Rightarrow> (setitem list \<times> string \<times> bool) option" where
  "set_member c cs =
     (case set_code c cs of
        None \<Rightarrow> None
      | Some (code1, r1) \<Rightarrow>
          (case r1 of
             [] \<Rightarrow> Some ([code1], r1, False)
           | d # r2 \<Rightarrow>
               if d \<noteq> CHR ''-'' then Some ([code1], r1, False)
               else (case r2 of
                   [] \<Rightarrow> None
                 | that # r3 \<Rightarrow>
                     if that = CHR '']'' then Some ([code1, LITERAL (CHR ''-'')], r3, True)
                     else (case set_code that r3 of
                         None \<Rightarrow> None
                       | Some (code2, r4) \<Rightarrow>
                           (case (code1, code2) of
                              (LITERAL lo, LITERAL hi) \<Rightarrow>
                                if (of_char hi :: nat) < of_char lo then None
                                else Some ([RANGE lo hi], r4, False)
                            | _ \<Rightarrow> None)))))"

lemma set_member_length: "set_member c cs = Some (items, r, b) \<Longrightarrow> length r \<le> length cs"
  unfolding set_member_def
  by (cases "set_code c cs")
     (auto split: if_splits list.splits option.splits setitem.splits prod.splits
           dest!: set_code_length)

text \<open>The body of a character set, after \<open>[\<close> and an optional \<open>^\<close>, up to the closing
  \<open>]\<close>; a \<open>]\<close> that comes first is a member.\<close>

function lex_set :: "setitem list \<Rightarrow> string \<Rightarrow> (setitem list \<times> string) option" where
  "lex_set acc [] = None"
| "lex_set acc (c # cs) =
     (if c = CHR '']'' \<and> acc \<noteq> [] then Some (acc, cs)
      else (case set_member c cs of
          None \<Rightarrow> None
        | Some (items, r, closed) \<Rightarrow>
            if closed then Some (acc @ items, r) else lex_set (acc @ items) r))"
  by pat_completeness auto
termination
  by (relation "measure (\<lambda>(acc, s). length s)")
     (auto dest!: set_member_length)

lemma lex_set_length: "lex_set acc s = Some (items, r) \<Longrightarrow> length r < length s"
proof (induction acc s rule: lex_set.induct)
  case (1 acc)
  then show ?case by simp
next
  case (2 acc c cs)
  show ?case
  proof (cases "c = CHR '']'' \<and> acc \<noteq> []")
    case True
    with "2.prems" show ?thesis by auto
  next
    case False
    show ?thesis
    proof (cases "set_member c cs")
      case None
      with False "2.prems" show ?thesis by auto
    next
      case (Some t)
      obtain its r' closed where t: "t = (its, r', closed)" by (cases t) auto
      have le: "length r' \<le> length cs" using Some t set_member_length by blast
      show ?thesis
      proof (cases closed)
        case True
        with False Some t "2.prems" have "r = r'" by auto
        with le show ?thesis by simp
      next
        case c: False
        with False Some t "2.prems" have "lex_set (acc @ its) r' = Some (items, r)" by auto
        with "2.IH" [OF False Some t [symmetric]] c have "length r < length r'"
          by auto
        with le show ?thesis by simp
      qed
    qed
  qed
qed

definition lex_class :: "string \<Rightarrow> (atom \<times> string) option" where
  "lex_class cs =
     (case cs of
        [] \<Rightarrow> None
      | c # r \<Rightarrow>
          if c = CHR ''^''
          then (case lex_set [] r of None \<Rightarrow> None | Some (items, r') \<Rightarrow> Some (IN True items, r'))
          else (case lex_set [] cs of None \<Rightarrow> None | Some (items, r') \<Rightarrow> Some (IN False items, r')))"

lemma lex_class_length: "lex_class cs = Some (a, r) \<Longrightarrow> length r < length cs"
  by (auto simp: lex_class_def simp del: lex_set.simps
           split: list.splits if_splits option.splits
           dest!: lex_set_length)

text \<open>The decimal number written by a run of digits.\<close>

definition digit_val :: "char \<Rightarrow> nat" where
  "digit_val c = of_char c - of_char (CHR ''0'')"

definition nat_of_digits :: "string \<Rightarrow> nat" where
  "nat_of_digits ds = foldl (\<lambda>n c. 10 * n + digit_val c) 0 ds"

text \<open>What follows a \<open>{\<close>: a repeat \<open>{m,n}\<close>, or not a repeat at all (the brace is then an
  ordinary character), or a repeat the library rejects.\<close>

datatype brace = NotRepeat | BadRepeat | Repeat nat "nat option" string

definition mk_repeat :: "string \<Rightarrow> string \<Rightarrow> string \<Rightarrow> brace" where
  "mk_repeat lo hi r =
     (let mn = (if lo = [] then 0 else nat_of_digits lo) in
      if mn \<ge> MAXREPEAT then BadRepeat
      else if hi = [] then Repeat mn None r
      else if nat_of_digits hi \<ge> MAXREPEAT then BadRepeat
      else if nat_of_digits hi < mn then BadRepeat
      else Repeat mn (Some (nat_of_digits hi)) r)"

definition lex_repeat :: "string \<Rightarrow> brace" where
  "lex_repeat cs =
     (if cs \<noteq> [] \<and> hd cs = CHR ''}'' then NotRepeat
      else
        (let lo = takeWhile (\<lambda>c. c \<in> set DIGITS) cs;
             r1 = dropWhile (\<lambda>c. c \<in> set DIGITS) cs
         in case r1 of
              [] \<Rightarrow> NotRepeat
            | d # r2 \<Rightarrow>
                if d = CHR '','' then
                  (let hi = takeWhile (\<lambda>c. c \<in> set DIGITS) r2;
                       r3 = dropWhile (\<lambda>c. c \<in> set DIGITS) r2
                   in case r3 of
                        [] \<Rightarrow> NotRepeat
                      | e # r4 \<Rightarrow> if e = CHR ''}'' then mk_repeat lo hi r4 else NotRepeat)
                else if d = CHR ''}'' then mk_repeat lo lo r2
                else NotRepeat))"

lemma mk_repeat_rest: "mk_repeat lo hi r = Repeat m n r' \<Longrightarrow> r' = r"
  by (auto simp: mk_repeat_def Let_def split: if_splits)

lemma dropWhile_Cons_length: "dropWhile P xs = y # ys \<Longrightarrow> length ys < length xs"
proof -
  assume "dropWhile P xs = y # ys"
  then have "length (dropWhile P xs) = Suc (length ys)" by simp
  moreover have "length (dropWhile P xs) \<le> length xs" by (rule length_dropWhile_le)
  ultimately show "length ys < length xs" by simp
qed

lemma lex_repeat_length:
  assumes "lex_repeat cs = Repeat m n r"
  shows "length r < length cs"
proof -
  let ?d = "\<lambda>c. c \<in> set DIGITS"
  from assms obtain d r2 where r1: "dropWhile ?d cs = d # r2"
    by (auto simp: lex_repeat_def Let_def split: if_splits list.splits)
  have l1: "length r2 < length cs" using r1 by (rule dropWhile_Cons_length)
  show ?thesis
  proof (cases "d = CHR '',''")
    case True
    with assms r1 obtain e r4 where r3: "dropWhile ?d r2 = e # r4" and "r = r4"
      by (auto simp: lex_repeat_def Let_def split: if_splits list.splits dest: mk_repeat_rest)
    with dropWhile_Cons_length [OF r3] l1 show ?thesis by simp
  next
    case False
    with assms r1 have "r = r2"
      by (auto simp: lex_repeat_def Let_def split: if_splits list.splits dest: mk_repeat_rest)
    with l1 show ?thesis by simp
  qed
qed

text \<open>A \<open>?\<close> right after a repeat makes it lazy.\<close>

definition skip_lazy :: "string \<Rightarrow> string" where
  "skip_lazy cs = (case cs of [] \<Rightarrow> [] | c # r \<Rightarrow> if c = CHR ''?'' then r else cs)"

lemma skip_lazy_length: "length (skip_lazy cs) \<le> length cs"
  by (simp add: skip_lazy_def split: list.splits)

definition tcons :: "token \<Rightarrow> token list option \<Rightarrow> token list option" where
  "tcons t r = (case r of None \<Rightarrow> None | Some ts \<Rightarrow> Some (t # ts))"

text \<open>One step of the reader: the token that starts with the character \<open>c\<close> just read,
  and the text after it.\<close>

definition lex1 :: "char \<Rightarrow> string \<Rightarrow> (token \<times> string) option" where
  "lex1 c cs =
     (if c = backslash then
        (case cs of
           [] \<Rightarrow> None
         | e # r \<Rightarrow> (case escape e of None \<Rightarrow> None | Some a \<Rightarrow> Some (TAtom a, r)))
      else if c = CHR ''['' then
        (case lex_class cs of None \<Rightarrow> None | Some (a, r) \<Rightarrow> Some (TAtom a, r))
      else if c = CHR ''*'' then Some (TRepeat 0 None, skip_lazy cs)
      else if c = CHR ''+'' then Some (TRepeat 1 None, skip_lazy cs)
      else if c = CHR ''?'' then Some (TRepeat 0 (Some 1), skip_lazy cs)
      else if c = CHR ''{'' then
        (case lex_repeat cs of
           NotRepeat \<Rightarrow> Some (TAtom (Lit c), cs)
         | BadRepeat \<Rightarrow> None
         | Repeat m n r \<Rightarrow> Some (TRepeat m n, skip_lazy r))
      else if c = CHR ''.'' then Some (TAtom ANY, cs)
      else if c = CHR ''('' then Some (TOpen, cs)
      else if c = CHR '')'' then Some (TClose, cs)
      else if c = CHR ''|'' then Some (TBar, cs)
      else if c = CHR ''^'' then Some (TBol, cs)
      else if c = CHR ''$'' then Some (TEol, cs)
      else Some (TAtom (Lit c), cs))"

lemma lex1_length:
  assumes "lex1 c cs = Some (t, r)"
  shows "length r \<le> length cs"
proof -
  have a: "\<And>a r'. lex_class cs = Some (a, r') \<Longrightarrow> length r' \<le> length cs"
    using lex_class_length by fastforce
  have b: "\<And>m n r'. lex_repeat cs = Repeat m n r' \<Longrightarrow> length (skip_lazy r') \<le> length cs"
    using lex_repeat_length skip_lazy_length by (meson le_trans less_imp_le_nat)
  have c: "length (skip_lazy cs) \<le> length cs" by (rule skip_lazy_length)
  from assms show ?thesis
    unfolding lex1_def
    by (auto split: if_splits list.splits option.splits brace.splits dest: a b simp: c)
qed

function lex :: "string \<Rightarrow> token list option" where
  "lex [] = Some []"
| "lex (c # cs) =
     (case lex1 c cs of None \<Rightarrow> None | Some (t, r) \<Rightarrow> tcons t (lex r))"
  by pat_completeness auto
termination
  by (relation "measure length") (auto dest!: lex1_length)


subsection \<open>Building the expression\<close>

text \<open>
  The tokens are folded into an expression with an explicit stack of open groups.  A frame
  holds the alternatives already closed by a \<open>|\<close> and the items of the alternative being
  read.  A repeat applies to the last item; the library rejects it when there is none, when
  the item is an anchor (nothing to repeat) or when it is itself a repeat (multiple repeat).
\<close>

type_synonym frame = "regex list \<times> regex list"

fun mk_seq :: "regex list \<Rightarrow> regex" where
  "mk_seq [] = Epsilon"
| "mk_seq [r] = r"
| "mk_seq (r # rs) = Seq r (mk_seq rs)"

fun mk_alt :: "regex list \<Rightarrow> regex" where
  "mk_alt [] = Epsilon"
| "mk_alt [r] = r"
| "mk_alt (r # rs) = Alt r (mk_alt rs)"

definition close_frame :: "frame \<Rightarrow> regex" where
  "close_frame f = mk_alt (fst f @ [mk_seq (snd f)])"

fun repeatable :: "regex \<Rightarrow> bool" where
  "repeatable AT_BEGINNING = False"
| "repeatable AT_END = False"
| "repeatable (MAX_REPEAT m n r) = False"
| "repeatable r = True"

fun parse :: "token list \<Rightarrow> frame \<Rightarrow> frame list \<Rightarrow> regex option" where
  "parse [] f [] = Some (close_frame f)"
| "parse [] f (p # ps) = None"
| "parse (TAtom a # ts) (alts, cur) st = parse ts (alts, cur @ [Atom a]) st"
| "parse (TBol # ts) (alts, cur) st = parse ts (alts, cur @ [AT_BEGINNING]) st"
| "parse (TEol # ts) (alts, cur) st = parse ts (alts, cur @ [AT_END]) st"
| "parse (TRepeat m n # ts) (alts, cur) st =
     (if cur = [] then None
      else if \<not> repeatable (last cur) then None
      else parse ts (alts, butlast cur @ [MAX_REPEAT m n (last cur)]) st)"
| "parse (TBar # ts) (alts, cur) st = parse ts (alts @ [mk_seq cur], []) st"
| "parse (TOpen # ts) f st = parse ts ([], []) (f # st)"
| "parse (TClose # ts) f [] = None"
| "parse (TClose # ts) f ((palts, pcur) # st) =
     parse ts (palts, pcur @ [SUBPATTERN (close_frame f)]) st"

text \<open>A compiled pattern keeps its source text; two compiled patterns are equal (and are
  the same dictionary key) exactly when their sources are.\<close>

datatype Pattern = Pattern (pattern: string) (prog: regex)

definition re_compile :: "string \<Rightarrow> Pattern option" where
  "re_compile s =
     (case lex s of
        None \<Rightarrow> None
      | Some ts \<Rightarrow> (case parse ts ([], []) [] of None \<Rightarrow> None | Some r \<Rightarrow> Some (Pattern s r)))"

subsection \<open>Matching\<close>

fun item_ok :: "setitem \<Rightarrow> char \<Rightarrow> bool" where
  "item_ok (LITERAL a) c = (c = a)"
| "item_ok (RANGE lo hi) c = ((of_char lo :: nat) \<le> of_char c \<and> (of_char c :: nat) \<le> of_char hi)"
| "item_ok (CATEGORY CATEGORY_DIGIT) c = (c \<in> set DIGITS)"
| "item_ok (CATEGORY CATEGORY_NOT_DIGIT) c = (c \<notin> set DIGITS)"

fun atom_ok :: "atom \<Rightarrow> char \<Rightarrow> bool" where
  "atom_ok (Lit a) c = (c = a)"
| "atom_ok ANY c = (c \<noteq> CHR 0x0A)"
| "atom_ok (IN negate items) c = (negate \<noteq> list_ex (\<lambda>i. item_ok i c) items)"

text \<open>
  \<open>ends r subj rest\<close> lists every text that can be left over when \<open>r\<close> matches at the front
  of \<open>rest\<close>, a suffix of the subject \<open>subj\<close>.  The engine of the library backtracks over
  all alternatives and all repeat counts, so it finds a match exactly when this list is not
  empty.  A repeat without upper bound needs at most \<open>length rest\<close> further rounds, since a
  round that consumes nothing reaches nothing new.
\<close>

definition step_all :: "(string \<Rightarrow> string list) \<Rightarrow> string list \<Rightarrow> string list" where
  "step_all f cs = remdups (concat (map f cs))"

fun iter_exact :: "nat \<Rightarrow> (string \<Rightarrow> string list) \<Rightarrow> string list \<Rightarrow> string list" where
  "iter_exact 0 f cs = cs"
| "iter_exact (Suc m) f cs = iter_exact m f (step_all f cs)"

fun iter_upto :: "nat \<Rightarrow> (string \<Rightarrow> string list) \<Rightarrow> string list \<Rightarrow> string list" where
  "iter_upto 0 f cs = cs"
| "iter_upto (Suc k) f cs = remdups (cs @ iter_upto k f (step_all f cs))"

definition rep_ends ::
  "(string \<Rightarrow> string list) \<Rightarrow> nat \<Rightarrow> nat option \<Rightarrow> string \<Rightarrow> string list" where
  "rep_ends f m n rest =
     (case n of
        None \<Rightarrow> iter_upto (length rest) f (iter_exact m f [rest])
      | Some h \<Rightarrow> iter_upto (min (h - m) (length rest)) f (iter_exact m f [rest]))"

primrec ends :: "regex \<Rightarrow> string \<Rightarrow> string \<Rightarrow> string list" where
  "ends (Atom a) subj rest =
     (case rest of [] \<Rightarrow> [] | c # cs \<Rightarrow> if atom_ok a c then [cs] else [])"
| "ends AT_BEGINNING subj rest = (if length rest = length subj then [rest] else [])"
| "ends AT_END subj rest = (if rest = [] \<or> rest = [CHR 0x0A] then [rest] else [])"
| "ends Epsilon subj rest = [rest]"
| "ends (Seq r1 r2) subj rest = step_all (ends r2 subj) (ends r1 subj rest)"
| "ends (Alt r1 r2) subj rest = remdups (ends r1 subj rest @ ends r2 subj rest)"
| "ends (SUBPATTERN r) subj rest = ends r subj rest"
| "ends (MAX_REPEAT m n r) subj rest = rep_ends (ends r subj) m n rest"

text \<open>\<open>p.match(s) is not None\<close>: some prefix of \<open>s\<close> matches.  \<open>p.fullmatch(s) is not None\<close>:
  the whole of \<open>s\<close> matches.\<close>

definition re_match :: "Pattern \<Rightarrow> string \<Rightarrow> bool" where
  "re_match p s = (ends (prog p) s s \<noteq> [])"

definition re_fullmatch :: "Pattern \<Rightarrow> string \<Rightarrow> bool" where
  "re_fullmatch p s = ([] \<in> set (ends (prog p) s s))"


section \<open>Built-in conversions\<close>

text \<open>
  The exceptions that the router can raise: its own \<open>NotSupportedError\<close> with its message,
  and the built-in \<open>ValueError\<close>, \<open>IndexError\<close> and \<open>re.error\<close> (their texts are not
  modelled).
\<close>

datatype exn = NotSupportedError string | ValueError | IndexError | re_error

text \<open>The native types of path variables, and the values built from a path segment.  A
  float is kept as the decimal text it was read from; its rounding to 64 bits is not
  modelled.\<close>

datatype pytype = py_str | py_int | py_float

datatype pyvalue = VStr string | VInt int | VFloat string

text \<open>The white space below code point 256, which \<open>int\<close> and \<open>float\<close> strip on both sides.\<close>

definition is_space :: "char \<Rightarrow> bool" where
  "is_space c = ((of_char c :: nat) \<in> set [9, 10, 11, 12, 13, 28, 29, 30, 31, 32, 133, 160])"

definition strip :: "string \<Rightarrow> string" where
  "strip s = rev (dropWhile is_space (rev (dropWhile is_space s)))"

text \<open>Digits with single underscores between them: \<open>digit (["_"] digit)*\<close>.\<close>

fun valid_digits :: "string \<Rightarrow> bool" where
  "valid_digits [] = False"
| "valid_digits [c] = (c \<in> set DIGITS)"
| "valid_digits (c # d # r) =
     (c \<in> set DIGITS \<and> (if d = CHR ''_'' then valid_digits r else valid_digits (d # r)))"

definition digits_value :: "string \<Rightarrow> nat" where
  "digits_value ds = nat_of_digits (filter (\<lambda>c. c \<noteq> CHR ''_'') ds)"

text \<open>\<open>int(s)\<close> for a string, base 10.\<close>

definition int_of_str :: "string \<Rightarrow> exn + int" where
  "int_of_str s =
     (case strip s of
        [] \<Rightarrow> Inl ValueError
      | c # r \<Rightarrow>
          if c = CHR ''-'' then
            (if valid_digits r then Inr (- int (digits_value r)) else Inl ValueError)
          else if c = CHR ''+'' then
            (if valid_digits r then Inr (int (digits_value r)) else Inl ValueError)
          else if valid_digits (c # r) then Inr (int (digits_value (c # r)))
          else Inl ValueError)"

text \<open>
  \<open>float(s)\<close> accepts, after stripping and an optional sign, \<open>inf\<close>, \<open>infinity\<close> and \<open>nan\<close>
  in any case, or a decimal number: an integer part and a fraction of which one may be
  missing, then an optional exponent.  The number is recognised by an automaton.
\<close>

datatype fstate =
    F_start | F_int | F_int_us | F_dot | F_frac0 | F_frac | F_frac_us
  | F_exp | F_exp_sign | F_exp_digits | F_exp_us | F_fail

definition is_e :: "char \<Rightarrow> bool" where
  "is_e c = (c = CHR ''e'' \<or> c = CHR ''E'')"

fun fstep :: "fstate \<Rightarrow> char \<Rightarrow> fstate" where
  "fstep F_start c =
     (if c \<in> set DIGITS then F_int else if c = CHR ''.'' then F_dot else F_fail)"
| "fstep F_int c =
     (if c \<in> set DIGITS then F_int else if c = CHR ''_'' then F_int_us
      else if c = CHR ''.'' then F_frac0 else if is_e c then F_exp else F_fail)"
| "fstep F_int_us c = (if c \<in> set DIGITS then F_int else F_fail)"
| "fstep F_dot c = (if c \<in> set DIGITS then F_frac else F_fail)"
| "fstep F_frac0 c =
     (if c \<in> set DIGITS then F_frac else if is_e c then F_exp else F_fail)"
| "fstep F_frac c =
     (if c \<in> set DIGITS then F_frac else if c = CHR ''_'' then F_frac_us
      else if is_e c then F_exp else F_fail)"
| "fstep F_frac_us c = (if c \<in> set DIGITS then F_frac else F_fail)"
| "fstep F_exp c =
     (if c \<in> set DIGITS then F_exp_digits
      else if c = CHR ''+'' \<or> c = CHR ''-'' then F_exp_sign else F_fail)"
| "fstep F_exp_sign c = (if c \<in> set DIGITS then F_exp_digits else F_fail)"
| "fstep F_exp_digits c =
     (if c \<in> set DIGITS then F_exp_digits else if c = CHR ''_'' then F_exp_us else F_fail)"
| "fstep F_exp_us c = (if c \<in> set DIGITS then F_exp_digits else F_fail)"
| "fstep F_fail c = F_fail"

definition faccept :: "fstate \<Rightarrow> bool" where
  "faccept q = (q = F_int \<or> q = F_frac0 \<or> q = F_frac \<or> q = F_exp_digits)"

definition lower_char :: "char \<Rightarrow> char" where
  "lower_char c =
     (if of_char (CHR ''A'') \<le> (of_char c :: nat) \<and> (of_char c :: nat) \<le> of_char (CHR ''Z'')
      then char_of ((of_char c :: nat) + 32) else c)"

definition valid_float_body :: "string \<Rightarrow> bool" where
  "valid_float_body b =
     (map lower_char b \<in> set [''inf'', ''infinity'', ''nan''] \<or> faccept (foldl fstep F_start b))"

definition float_of_str :: "string \<Rightarrow> exn + string" where
  "float_of_str s =
     (case strip s of
        [] \<Rightarrow> Inl ValueError
      | c # r \<Rightarrow>
          if c = CHR ''-'' \<or> c = CHR ''+'' then
            (if valid_float_body r then Inr (c # r) else Inl ValueError)
          else if valid_float_body (c # r) then Inr (c # r)
          else Inl ValueError)"

text \<open>Calling a native type on a string: \<open>str(s)\<close>, \<open>int(s)\<close>, \<open>float(s)\<close>.\<close>

fun construct :: "pytype \<Rightarrow> string \<Rightarrow> exn + pyvalue" where
  "construct py_str s = Inr (VStr s)"
| "construct py_int s = (case int_of_str s of Inl e \<Rightarrow> Inl e | Inr i \<Rightarrow> Inr (VInt i))"
| "construct py_float s = (case float_of_str s of Inl e \<Rightarrow> Inl e | Inr f \<Rightarrow> Inr (VFloat f))"


section \<open>The router\<close>

subsection \<open>Variable types\<close>

datatype RocketPathVariableTypesRepresentation =
  Representation (rep_t: pytype) (rep_regex: string)

datatype RocketPathVariableTypes = UUID4 | STR' | INT64 | FLOAT64

fun type_value :: "RocketPathVariableTypes \<Rightarrow> RocketPathVariableTypesRepresentation" where
  "type_value UUID4 =
     Representation py_str
       ''[a-f0-9]{8}-?[a-f0-9]{4}-?4[a-f0-9]{3}-?[89ab][a-f0-9]{3}-?[a-f0-9]{12}''"
| "type_value STR' =
     Representation py_str (''[-a-zA-Z0-9@:%._'' @ [backslash] @ ''+~#=]+'')"
| "type_value INT64 =
     Representation py_int (''[-+]?'' @ [backslash] @ ''d+'')"
| "type_value FLOAT64 =
     Representation py_float
       (''[-+]?'' @ [backslash] @ ''d*'' @ [backslash] @ ''.?'' @ [backslash] @ ''d+|''
        @ [backslash] @ ''d+'')"

text \<open>\<open>FromStr\<close>: the tag in upper case is looked up among the members; any other tag
  gives \<open>STR'\<close> (the member \<open>STR\<close> of the source).\<close>

definition FromStr :: "string \<Rightarrow> RocketPathVariableTypes" where
  "FromStr t =
     (let u = upper t in
      if u = ''UUID4'' then UUID4
      else if u = ''STR'' then STR'
      else if u = ''INT64'' then INT64
      else if u = ''FLOAT64'' then FLOAT64
      else STR')"

record RocketPathVariable =
  Index :: nat
  Class :: pytype
  Name :: string

subsection \<open>Method tables\<close>

definition POSSIBLE_METHODS :: "string list" where
  "POSSIBLE_METHODS = [''GET'', ''POST'', ''PUT'', ''DELETE'', ''PATCH'']"

text \<open>A Python dictionary is an association list in insertion order: \<open>map_of\<close> reads a
  key, \<open>AList.update\<close> overwrites it in place or appends it.\<close>

record 'f HttpApiMethods =
  FunctionsLookup :: "(string \<times> 'f) list"

definition HttpApiMethods_init :: "'f HttpApiMethods" where
  "HttpApiMethods_init = \<lparr>FunctionsLookup = []\<rparr>"

text \<open>\<open>Register\<close> mutates the table method by method and raises at the first unsupported
  name: what it has stored before that stays stored.  The result is the exception, if any,
  and the table as the call leaves it.\<close>

fun Register ::
  "'f HttpApiMethods \<Rightarrow> string list \<Rightarrow> 'f \<Rightarrow> exn option \<times> 'f HttpApiMethods" where
  "Register self [] functionPtr = (None, self)"
| "Register self (method # rest) functionPtr =
     (if method \<in> set POSSIBLE_METHODS
      then Register
             (self\<lparr>FunctionsLookup := AList.update method functionPtr (FunctionsLookup self)\<rparr>)
             rest functionPtr
      else (Some (NotSupportedError (''unsupported rest-method: '' @ [CHR 0x27] @ method @ [CHR 0x27])),
            self))"

definition Get :: "'f HttpApiMethods \<Rightarrow> string \<Rightarrow> 'f option" where
  "Get self httpFunctionType = map_of (FunctionsLookup self) httpFunctionType"

subsection \<open>Templated paths\<close>

record 'f RocketTemplatedPath =
  TemplatedPathStr :: string
  TemplatedPathVariables :: "RocketPathVariable list"
  HttpMethodsMap :: "'f HttpApiMethods"

text \<open>The constructor registers the methods in a fresh table; when that raises, no object
  comes into being.\<close>

definition RocketTemplatedPath_init ::
  "string \<Rightarrow> RocketPathVariable list \<Rightarrow> 'f \<Rightarrow> string list \<Rightarrow> exn + 'f RocketTemplatedPath" where
  "RocketTemplatedPath_init templatedPathStr templatedPathVariables functionPtr acceptedHttpMethods =
     (case Register HttpApiMethods_init acceptedHttpMethods functionPtr of
        (Some e, hm) \<Rightarrow> Inl e
      | (None, hm) \<Rightarrow>
          Inr \<lparr>TemplatedPathStr = templatedPathStr,
               TemplatedPathVariables = templatedPathVariables,
               HttpMethodsMap = hm\<rparr>)"

record 'f RocketSpecificPath =
  Vars :: "(string \<times> pyvalue) list"
  Function :: "'f"

subsection \<open>Routing errors\<close>

datatype HttpStatus = MULTIPLE_CHOICES | NOT_FOUND | METHOD_NOT_ALLOWED

fun status_value :: "HttpStatus \<Rightarrow> nat" where
  "status_value MULTIPLE_CHOICES = 300"
| "status_value NOT_FOUND = 404"
| "status_value METHOD_NOT_ALLOWED = 405"

text \<open>\<open>Error(msg, status)\<close>, built by \<open>Match\<close> and returned, never raised.\<close>

datatype Error = Error (Msg: string) (Status: HttpStatus)

subsection \<open>Mount\<close>

record 'f RocketRouter =
  routes :: "(Pattern \<times> 'f RocketTemplatedPath) list"

definition RocketRouter_init :: "'f RocketRouter" where
  "RocketRouter_init = \<lparr>routes = []\<rparr>"

definition startswith_brace :: "string \<Rightarrow> bool" where
  "startswith_brace m = (m \<noteq> [] \<and> hd m = CHR ''{'')"

text \<open>
  The loop of \<open>Mount\<close> over \<open>enumerate(modules)\<close>: \<open>todo\<close> holds the modules not visited
  yet, \<open>modules\<close> the list that the loop overwrites at the current index.  \<open>mod[1:-1]\<close> drops
  the first and the last character, whatever the last one is; unpacking its split into
  two names raises \<open>ValueError\<close> unless there are exactly two parts.
\<close>

fun mount_loop ::
  "nat \<Rightarrow> string list \<Rightarrow> RocketPathVariable list \<Rightarrow> string list
     \<Rightarrow> exn + (RocketPathVariable list \<times> string list)" where
  "mount_loop index [] variables modules = Inr (variables, modules)"
| "mount_loop index (m # todo) variables modules =
     (if startswith_brace m then
        (case split_on (CHR '':'') (butlast (tl m)) of
           [varname, vartype] \<Rightarrow>
             mount_loop (index + 1) todo
               (variables @
                  [\<lparr>Index = index, Class = rep_t (type_value (FromStr vartype)),
                    Name = varname\<rparr>])
               (modules[index := rep_regex (type_value (FromStr vartype))])
         | _ \<Rightarrow> Inl ValueError)
      else mount_loop (index + 1) todo variables modules)"

definition template_modules :: "string \<Rightarrow> string list" where
  "template_modules templatedPathStr =
     filter (\<lambda>m. m \<noteq> []) (split_on (CHR ''/'') templatedPathStr)"

text \<open>\<open>Mount\<close> returns the exception it raises, if any, and the router as the call leaves
  it.\<close>

definition Mount ::
  "'f RocketRouter \<Rightarrow> string \<Rightarrow> 'f \<Rightarrow> string list \<Rightarrow> exn option \<times> 'f RocketRouter" where
  "Mount self templatedPathStr functionPtr acceptedHttpMethods =
     (let modules = template_modules templatedPathStr in
      case mount_loop 0 modules [] modules of
        Inl e \<Rightarrow> (Some e, self)
      | Inr (variables, modules') \<Rightarrow>
          (case re_compile (join ''/'' modules') of
             None \<Rightarrow> (Some re_error, self)
           | Some regex \<Rightarrow>
               (case map_of (routes self) regex of
                  None \<Rightarrow>
                    (case RocketTemplatedPath_init templatedPathStr variables functionPtr
                            acceptedHttpMethods of
                       Inl e \<Rightarrow> (Some e, self)
                     | Inr tp \<Rightarrow> (None, self\<lparr>routes := AList.update regex tp (routes self)\<rparr>))
                | Some tp \<Rightarrow>
                    (case Register (HttpMethodsMap tp) acceptedHttpMethods functionPtr of
                       (e, hm) \<Rightarrow>
                         (e, self\<lparr>routes :=
                                  AList.update regex (tp\<lparr>HttpMethodsMap := hm\<rparr>) (routes self)\<rparr>)))))"

text \<open>
  The first half of \<open>Mount\<close> on its own, for stating properties: the variables and the
  compiled pattern of a template, or the exception raised before the route table is
  consulted.
\<close>

definition compile_template :: "string \<Rightarrow> exn + (RocketPathVariable list \<times> Pattern)" where
  "compile_template templatedPathStr =
     (let modules = template_modules templatedPathStr in
      case mount_loop 0 modules [] modules of
        Inl e \<Rightarrow> Inl e
      | Inr (variables, modules') \<Rightarrow>
          (case re_compile (join ''/'' modules') of
             None \<Rightarrow> Inl re_error
           | Some regex \<Rightarrow> Inr (variables, regex)))"

text \<open>The message of the \<open>NotSupportedError\<close> that \<open>Register\<close> raises for a method name.\<close>

definition unsupported_message :: "string \<Rightarrow> string" where
  "unsupported_message method = ''unsupported rest-method: '' @ [CHR 0x27] @ method @ [CHR 0x27]"

subsection \<open>Match\<close>

text \<open>A call either returns a value or raises.\<close>

datatype 'a outcome = Returned 'a | Raised exn

text \<open>The loop that fills \<open>variables\<close>: \<open>modules[var.Index]\<close> raises \<open>IndexError\<close> past the
  end of the list, and the native type raises \<open>ValueError\<close> on text it cannot read.\<close>

fun map_variables ::
  "RocketPathVariable list \<Rightarrow> string list \<Rightarrow> (string \<times> pyvalue) list
     \<Rightarrow> exn + (string \<times> pyvalue) list" where
  "map_variables [] modules variables = Inr variables"
| "map_variables (var # rest) modules variables =
     (if Index var < length modules then
        (case construct (Class var) (modules ! Index var) of
           Inl e \<Rightarrow> Inl e
         | Inr v \<Rightarrow> map_variables rest modules (AList.update (Name var) v variables))
      else Inl IndexError)"

text \<open>The templates whose pattern matches at the start of the route, in table order.\<close>

definition matching_templates ::
  "'f RocketRouter \<Rightarrow> string \<Rightarrow> 'f RocketTemplatedPath list" where
  "matching_templates self route =
     map snd (filter (\<lambda>(regex, template). re_match regex route) (routes self))"

text \<open>
  \<open>Match\<close> returns a pair: the specific path or \<open>None\<close>, and \<open>None\<close> or the error.  The
  second component of the model's result is the router after the call.  The debug line
  written on success is not modelled.
\<close>

definition Match ::
  "'f RocketRouter \<Rightarrow> string \<Rightarrow> string
     \<Rightarrow> ('f RocketSpecificPath option \<times> Error option) outcome \<times> 'f RocketRouter" where
  "Match self route httpApiFunc =
     (let templates = matching_templates self route;
          modules = split_on (CHR ''/'') route
      in if length templates \<noteq> 1 then
           (if length templates > 1
            then (Returned (None, Some (Error ''to many matched routes found'' MULTIPLE_CHOICES)),
                  self)
            else (Returned (None, Some (Error ''no matching routes could be found'' NOT_FOUND)),
                  self))
         else
           (let template = hd templates in
            case map_variables (TemplatedPathVariables template) modules [] of
              Inl e \<Rightarrow> (Raised e, self)
            | Inr variables \<Rightarrow>
                (case Get (HttpMethodsMap template) httpApiFunc of
                   None \<Rightarrow>
                     (Returned
                        (None, Some (Error ''HTTP method is not allowed on this route''
                                       METHOD_NOT_ALLOWED)),
                      self)
                 | Some functionPtr \<Rightarrow>
                     (Returned (Some \<lparr>Vars = variables, Function = functionPtr\<rparr>, None),
                      self))))"


section \<open>Properties of the router\<close>

subsection \<open>Match reads the route table only\<close>

text \<open>
  Claim C8.  \<open>Match\<close> never mutates the route table: whatever the table, the path and the
  method are, and whether the call returns or raises, the router after the call is the
  router before it, with the same patterns, template texts, variable lists and method
  tables.
\<close>

theorem Match_leaves_router: "snd (Match self route httpApiFunc) = self"
  by (simp add: Match_def Let_def split: sum.splits option.splits)

subsection \<open>Malformed variable segments\<close>

lemma mount_loop_malformed:
  assumes "m \<in> set todo" "startswith_brace m"
    and "length (split_on (CHR '':'') (butlast (tl m))) \<noteq> 2"
  shows "mount_loop index todo variables modules = Inl ValueError"
  using assms
proof (induction todo arbitrary: index variables modules)
  case Nil
  then show ?case by simp
next
  case (Cons x todo)
  show ?case
  proof (cases "x = m")
    case True
    with Cons.prems show ?thesis
      by (auto split: list.splits)
  next
    case False
    with Cons.prems have "m \<in> set todo" by simp
    then have ih: "\<And>i vs ms. mount_loop i todo vs ms = Inl ValueError"
      using Cons.IH Cons.prems(2,3) by blast
    show ?thesis by (simp add: ih split: list.splits)
  qed
qed

text \<open>
  Claim C9.  \<open>Mount\<close> accepts a variable segment only when the text between its first and
  last character splits on \<open>:\<close> into exactly two parts.  For a template with a segment that
  starts with \<open>{\<close> and splits otherwise (such as \<open>{name}\<close> or \<open>{a:b:c}\<close>), \<open>Mount\<close> raises the
  \<open>ValueError\<close> of the failed unpacking, not the \<open>NotSupportedError\<close> of a configuration
  error, whatever the methods are, and the route table is left as it was: no route is
  registered.
\<close>

theorem Mount_malformed_variable:
  assumes "m \<in> set (template_modules templatedPathStr)"
    and "startswith_brace m"
    and "length (split_on (CHR '':'') (butlast (tl m))) \<noteq> 2"
  shows "Mount self templatedPathStr functionPtr acceptedHttpMethods = (Some ValueError, self)"
  using mount_loop_malformed [OF assms] by (simp add: Mount_def Let_def)

theorem Mount_malformed_variable_witness:
  "Mount (RocketRouter_init :: nat RocketRouter) ''/kng/{name}'' 0 [''GET'']
     = (Some ValueError, RocketRouter_init)
   \<and> Mount (RocketRouter_init :: nat RocketRouter) ''/{a:b:c}'' 0 [''FETCH'']
     = (Some ValueError, RocketRouter_init)"
proof -
  have a: "''{name}'' \<in> set (template_modules ''/kng/{name}'')"
    by (simp add: template_modules_def)
  have b: "startswith_brace ''{name}''" by (simp add: startswith_brace_def)
  have c: "length (split_on (CHR '':'') (butlast (tl ''{name}''))) \<noteq> 2" by simp
  have a': "''{a:b:c}'' \<in> set (template_modules ''/{a:b:c}'')"
    by (simp add: template_modules_def)
  have b': "startswith_brace ''{a:b:c}''" by (simp add: startswith_brace_def)
  have c': "length (split_on (CHR '':'') (butlast (tl ''{a:b:c}''))) \<noteq> 2" by simp
  show ?thesis
    using Mount_malformed_variable [OF a b c, of RocketRouter_init "0::nat" "[''GET'']"]
      Mount_malformed_variable [OF a' b' c', of RocketRouter_init "0::nat" "[''FETCH'']"]
    by (rule conjI)
qed

subsection \<open>Mount, step by step\<close>

lemma Mount_compile_error:
  "compile_template T = Inl e \<Longrightarrow> Mount self T f ms = (Some e, self)"
  by (auto simp: compile_template_def Mount_def Let_def split: sum.splits option.splits prod.splits)

lemma Mount_new:
  "compile_template T = Inr (vs, regex) \<Longrightarrow> map_of (routes self) regex = None \<Longrightarrow>
   Mount self T f ms =
     (case RocketTemplatedPath_init T vs f ms of
        Inl e \<Rightarrow> (Some e, self)
      | Inr tp \<Rightarrow> (None, self\<lparr>routes := AList.update regex tp (routes self)\<rparr>))"
  by (auto simp: compile_template_def Mount_def Let_def split: sum.splits option.splits prod.splits)

lemma Mount_merge:
  "compile_template T = Inr (vs, regex) \<Longrightarrow> map_of (routes self) regex = Some tp \<Longrightarrow>
   Mount self T f ms =
     (case Register (HttpMethodsMap tp) ms f of
        (e, hm) \<Rightarrow> (e, self\<lparr>routes := AList.update regex (tp\<lparr>HttpMethodsMap := hm\<rparr>) (routes self)\<rparr>))"
  by (auto simp: compile_template_def Mount_def Let_def split: sum.splits option.splits prod.splits)

subsection \<open>Registering methods\<close>

lemma Register_supported:
  "set ms \<subseteq> set POSSIBLE_METHODS \<Longrightarrow>
   \<exists>hm. Register self ms f = (None, hm)
      \<and> (\<forall>m. Get hm m = (if m \<in> set ms then Some f else Get self m))"
proof (induction ms arbitrary: self)
  case Nil
  then show ?case by simp
next
  case (Cons a ms)
  let ?s = "self\<lparr>FunctionsLookup := AList.update a f (FunctionsLookup self)\<rparr>"
  from Cons.prems have a: "a \<in> set POSSIBLE_METHODS" and ms: "set ms \<subseteq> set POSSIBLE_METHODS"
    by auto
  from Cons.IH [OF ms, of ?s] obtain hm where
    hm: "Register ?s ms f = (None, hm)"
    and g: "\<forall>m. Get hm m = (if m \<in> set ms then Some f else Get ?s m)" by blast
  have "Register self (a # ms) f = (None, hm)" using a hm by simp
  moreover have "\<forall>m. Get hm m = (if m \<in> set (a # ms) then Some f else Get self m)"
    using g by (auto simp: Get_def update_conv')
  ultimately show ?case by blast
qed

lemma Register_unsupported:
  "set pre \<subseteq> set POSSIBLE_METHODS \<Longrightarrow> bad \<notin> set POSSIBLE_METHODS \<Longrightarrow>
   \<exists>hm. Register self (pre @ bad # post) f = (Some (NotSupportedError (unsupported_message bad)), hm)
      \<and> (\<forall>m. Get hm m = (if m \<in> set pre then Some f else Get self m))"
proof (induction pre arbitrary: self)
  case Nil
  then show ?case by (simp add: unsupported_message_def)
next
  case (Cons a pre)
  let ?s = "self\<lparr>FunctionsLookup := AList.update a f (FunctionsLookup self)\<rparr>"
  from Cons.prems have a: "a \<in> set POSSIBLE_METHODS" and ms: "set pre \<subseteq> set POSSIBLE_METHODS"
    by auto
  from Cons.IH [OF ms Cons.prems(2), of ?s] obtain hm where
    hm: "Register ?s (pre @ bad # post) f = (Some (NotSupportedError (unsupported_message bad)), hm)"
    and g: "\<forall>m. Get hm m = (if m \<in> set pre then Some f else Get ?s m)" by blast
  have "Register self ((a # pre) @ bad # post) f = (Some (NotSupportedError (unsupported_message bad)), hm)"
    using a hm by simp
  moreover have "\<forall>m. Get hm m = (if m \<in> set (a # pre) then Some f else Get self m)"
    using g by (auto simp: Get_def update_conv')
  ultimately show ?case by blast
qed

lemma Register_init_unsupported:
  "set pre \<subseteq> set POSSIBLE_METHODS \<Longrightarrow> bad \<notin> set POSSIBLE_METHODS \<Longrightarrow>
   RocketTemplatedPath_init T vs f (pre @ bad # post) = Inl (NotSupportedError (unsupported_message bad))"
  using Register_unsupported [of pre bad HttpApiMethods_init post f]
  by (auto simp: RocketTemplatedPath_init_def)

lemma first_unsupported:
  assumes "\<not> set ms \<subseteq> set POSSIBLE_METHODS"
  shows "\<exists>pre bad post. ms = pre @ bad # post \<and> set pre \<subseteq> set POSSIBLE_METHODS
           \<and> bad \<notin> set POSSIBLE_METHODS"
proof -
  from assms have "\<exists>x \<in> set ms. x \<notin> set POSSIBLE_METHODS" by auto
  from split_list_first_prop [OF this] show ?thesis by (metis subsetI)
qed


subsection \<open>An unsupported method name\<close>

text \<open>
  Claim C10.  \<open>Mount\<close> is atomic on error only for new templates.  Let the methods be
  supported names \<open>pre\<close>, then an unsupported name \<open>bad\<close>, then anything.  If the pattern of
  the template is not yet in the route table, \<open>Mount\<close> raises the error for \<open>bad\<close> and the
  table is unchanged.  If the pattern is already there, \<open>Mount\<close> raises the same error, but
  the method table of the existing route has by then been updated: every name of \<open>pre\<close> is
  mapped to the new handler, and every other name is mapped as before.
\<close>

theorem Mount_unsupported_method_atomicity:
  assumes "compile_template T = Inr (vs, regex)"
    and "set pre \<subseteq> set POSSIBLE_METHODS"
    and "bad \<notin> set POSSIBLE_METHODS"
  shows "(map_of (routes self) regex = None \<longrightarrow>
            Mount self T f (pre @ bad # post)
              = (Some (NotSupportedError (unsupported_message bad)), self))
       \<and> (\<forall>tp. map_of (routes self) regex = Some tp \<longrightarrow>
            (\<exists>hm. Mount self T f (pre @ bad # post)
                     = (Some (NotSupportedError (unsupported_message bad)),
                        self\<lparr>routes :=
                               AList.update regex (tp\<lparr>HttpMethodsMap := hm\<rparr>) (routes self)\<rparr>)
                \<and> (\<forall>m. Get hm m
                          = (if m \<in> set pre then Some f else Get (HttpMethodsMap tp) m))))"
proof (intro conjI impI allI)
  assume "map_of (routes self) regex = None"
  then show "Mount self T f (pre @ bad # post)
               = (Some (NotSupportedError (unsupported_message bad)), self)"
    by (simp add: Mount_new [OF assms(1)] Register_init_unsupported [OF assms(2,3)])
next
  fix tp
  assume tp: "map_of (routes self) regex = Some tp"
  from Register_unsupported [OF assms(2,3), of "HttpMethodsMap tp" post f]
  obtain hm where
    r: "Register (HttpMethodsMap tp) (pre @ bad # post) f
          = (Some (NotSupportedError (unsupported_message bad)), hm)"
    and g: "\<forall>m. Get hm m = (if m \<in> set pre then Some f else Get (HttpMethodsMap tp) m)"
    by blast
  have "Mount self T f (pre @ bad # post)
          = (Some (NotSupportedError (unsupported_message bad)),
             self\<lparr>routes := AList.update regex (tp\<lparr>HttpMethodsMap := hm\<rparr>) (routes self)\<rparr>)"
    by (simp add: Mount_merge [OF assms(1) tp] r)
  with g show "\<exists>hm. Mount self T f (pre @ bad # post)
                     = (Some (NotSupportedError (unsupported_message bad)),
                        self\<lparr>routes :=
                               AList.update regex (tp\<lparr>HttpMethodsMap := hm\<rparr>) (routes self)\<rparr>)
                \<and> (\<forall>m. Get hm m
                          = (if m \<in> set pre then Some f else Get (HttpMethodsMap tp) m))"
    by blast
qed

text \<open>The template \<open>/x\<close>, evaluated.\<close>

lemma compile_template_x:
  "compile_template ''/x'' = Inr ([], Pattern ''x'' (Atom (Lit (CHR ''x''))))"
  by code_simp

lemma Mount_x_GET:
  "Mount (RocketRouter_init :: nat RocketRouter) ''/x'' 7 [''GET'']
     = (None,
        \<lparr>routes = [(Pattern ''x'' (Atom (Lit (CHR ''x''))),
                    \<lparr>TemplatedPathStr = ''/x'', TemplatedPathVariables = [],
                     HttpMethodsMap = \<lparr>FunctionsLookup = [(''GET'', 7)]\<rparr>\<rparr>)]\<rparr>)"
  by code_simp


theorem Mount_unsupported_method_atomicity_witness:
  "Mount (RocketRouter_init :: nat RocketRouter) ''/x'' 7 [''GET'', ''FETCH'']
     = (Some (NotSupportedError (unsupported_message ''FETCH'')), RocketRouter_init)
   \<and> (\<exists>hm. Mount (snd (Mount (RocketRouter_init :: nat RocketRouter) ''/x'' 7 [''GET'']))
                ''/x'' 8 [''POST'', ''FETCH'', ''PUT'']
             = (Some (NotSupportedError (unsupported_message ''FETCH'')),
                \<lparr>routes = [(Pattern ''x'' (Atom (Lit (CHR ''x''))),
                            \<lparr>TemplatedPathStr = ''/x'', TemplatedPathVariables = [],
                             HttpMethodsMap = hm\<rparr>)]\<rparr>)
          \<and> Get hm ''POST'' = Some 8 \<and> Get hm ''GET'' = Some 7 \<and> Get hm ''PUT'' = None)"
proof -
  let ?p = "Pattern ''x'' (Atom (Lit (CHR ''x'')))"
  let ?tp = "\<lparr>TemplatedPathStr = ''/x'', TemplatedPathVariables = [],
              HttpMethodsMap = \<lparr>FunctionsLookup = [(''GET'', 7::nat)]\<rparr>\<rparr>"
  let ?r = "\<lparr>routes = [(?p, ?tp)]\<rparr>"
  have get: "set [''GET''] \<subseteq> set POSSIBLE_METHODS" by (simp add: POSSIBLE_METHODS_def)
  have post: "set [''POST''] \<subseteq> set POSSIBLE_METHODS" by (simp add: POSSIBLE_METHODS_def)
  have fetch: "''FETCH'' \<notin> set POSSIBLE_METHODS" by (simp add: POSSIBLE_METHODS_def)
  have new: "map_of (routes (RocketRouter_init :: nat RocketRouter)) ?p = None"
    by (simp add: RocketRouter_init_def)
  have old: "map_of (routes ?r) ?p = Some ?tp" by simp
  have r: "snd (Mount (RocketRouter_init :: nat RocketRouter) ''/x'' 7 [''GET'']) = ?r"
    by (simp add: Mount_x_GET)
  from Mount_unsupported_method_atomicity
         [OF compile_template_x get fetch, of RocketRouter_init "7::nat" "[]"] new
  have a: "Mount (RocketRouter_init :: nat RocketRouter) ''/x'' 7 [''GET'', ''FETCH'']
             = (Some (NotSupportedError (unsupported_message ''FETCH'')), RocketRouter_init)"
    by simp
  from Mount_unsupported_method_atomicity
         [OF compile_template_x post fetch, of ?r "8::nat" "[''PUT'']"] old
  obtain hm where
    m: "Mount ?r ''/x'' 8 [''POST'', ''FETCH'', ''PUT'']
          = (Some (NotSupportedError (unsupported_message ''FETCH'')),
             ?r\<lparr>routes := AList.update ?p (?tp\<lparr>HttpMethodsMap := hm\<rparr>) (routes ?r)\<rparr>)"
    and g: "\<forall>m. Get hm m
               = (if m \<in> set [''POST''] then Some 8 else Get (HttpMethodsMap ?tp) m)"
    by auto
  have "Get hm ''POST'' = Some 8" "Get hm ''GET'' = Some 7" "Get hm ''PUT'' = None"
    using g by (simp_all add: Get_def)
  with a m r show ?thesis by simp
qed

text \<open>
  Claim C6, as amended.  For every call of \<open>Mount\<close> whose template compiles (every variable
  segment splits into a name and a type, and the pattern is accepted): if every method name
  is one of \<open>GET\<close>, \<open>POST\<close>, \<open>PUT\<close>, \<open>DELETE\<close>, \<open>PATCH\<close>, the call succeeds; otherwise it
  fails at mount time with a \<open>NotSupportedError\<close> whose message names an offending method
  of the list.
\<close>

theorem Mount_checks_methods:
  assumes "compile_template T = Inr (vs, regex)"
  shows "(set ms \<subseteq> set POSSIBLE_METHODS \<longrightarrow> fst (Mount self T f ms) = None)
       \<and> (\<not> set ms \<subseteq> set POSSIBLE_METHODS \<longrightarrow>
            (\<exists>bad \<in> set ms. bad \<notin> set POSSIBLE_METHODS
               \<and> fst (Mount self T f ms) = Some (NotSupportedError (unsupported_message bad))))"
proof (intro conjI impI)
  assume ok: "set ms \<subseteq> set POSSIBLE_METHODS"
  show "fst (Mount self T f ms) = None"
  proof (cases "map_of (routes self) regex")
    case None
    from Register_supported [OF ok, of HttpApiMethods_init f]
    obtain hm where "Register HttpApiMethods_init ms f = (None, hm)" by blast
    then show ?thesis
      by (simp add: Mount_new [OF assms None] RocketTemplatedPath_init_def)
  next
    case (Some tp)
    from Register_supported [OF ok, of "HttpMethodsMap tp" f]
    obtain hm where "Register (HttpMethodsMap tp) ms f = (None, hm)" by blast
    then show ?thesis by (simp add: Mount_merge [OF assms Some])
  qed
next
  assume "\<not> set ms \<subseteq> set POSSIBLE_METHODS"
  from first_unsupported [OF this] obtain pre bad post where
    ms: "ms = pre @ bad # post" and pre: "set pre \<subseteq> set POSSIBLE_METHODS"
    and bad: "bad \<notin> set POSSIBLE_METHODS" by blast
  have "fst (Mount self T f ms) = Some (NotSupportedError (unsupported_message bad))"
  proof (cases "map_of (routes self) regex")
    case None
    then show ?thesis
      by (simp add: ms Mount_new [OF assms None] Register_init_unsupported [OF pre bad])
  next
    case (Some tp)
    from Register_unsupported [OF pre bad, of "HttpMethodsMap tp" post f]
    obtain hm where "Register (HttpMethodsMap tp) (pre @ bad # post) f
                       = (Some (NotSupportedError (unsupported_message bad)), hm)" by blast
    then show ?thesis by (simp add: ms Mount_merge [OF assms Some])
  qed
  with ms bad
  show "\<exists>bad \<in> set ms. bad \<notin> set POSSIBLE_METHODS
          \<and> fst (Mount self T f ms) = Some (NotSupportedError (unsupported_message bad))"
    by auto
qed

theorem Mount_checks_methods_witness:
  "fst (Mount (RocketRouter_init :: nat RocketRouter) ''/x'' 7 [''GET'', ''PATCH'']) = None
   \<and> (\<exists>bad \<in> set [''GET'', ''FETCH'']. bad \<notin> set POSSIBLE_METHODS
         \<and> fst (Mount (RocketRouter_init :: nat RocketRouter) ''/x'' 7 [''GET'', ''FETCH''])
             = Some (NotSupportedError (unsupported_message bad)))"
proof -
  have ok: "set [''GET'', ''PATCH''] \<subseteq> set POSSIBLE_METHODS"
    by (simp add: POSSIBLE_METHODS_def)
  have no: "\<not> set [''GET'', ''FETCH''] \<subseteq> set POSSIBLE_METHODS"
    by (simp add: POSSIBLE_METHODS_def)
  show ?thesis
    using Mount_checks_methods
            [OF compile_template_x, of "[''GET'', ''PATCH'']" RocketRouter_init "7::nat"]
          Mount_checks_methods
            [OF compile_template_x, of "[''GET'', ''FETCH'']" RocketRouter_init "7::nat"]
          ok no
    by blast
qed

text \<open>
  The claim as first stated, for every template, fails: with the supported method \<open>GET\<close>
  alone, mounting \<open>/{name}\<close> raises \<open>ValueError\<close>.
\<close>

theorem Mount_valid_methods_counterexample:
  "set [''GET''] \<subseteq> set POSSIBLE_METHODS
   \<and> Mount (RocketRouter_init :: nat RocketRouter) ''/{name}'' 7 [''GET'']
       = (Some ValueError, RocketRouter_init)"
  by code_simp


subsection \<open>Mounting a template again\<close>

lemma Mount_keys:
  "map fst (routes (snd (Mount self T f ms))) = map fst (routes self)
   \<or> (\<exists>vs regex. compile_template T = Inr (vs, regex) \<and> map_of (routes self) regex = None
         \<and> fst (Mount self T f ms) = None
         \<and> map fst (routes (snd (Mount self T f ms))) = map fst (routes self) @ [regex])"
proof (cases "compile_template T")
  case (Inl e)
  then show ?thesis by (simp add: Mount_compile_error)
next
  case (Inr p)
  obtain vs regex where p: "p = (vs, regex)" by (cases p)
  note c = Inr [unfolded p]
  show ?thesis
  proof (cases "map_of (routes self) regex")
    case None
    then have "regex \<notin> set (map fst (routes self))" by (simp add: map_of_eq_None_iff)
    then show ?thesis using c None
      by (cases "RocketTemplatedPath_init T vs f ms") (simp_all add: Mount_new [OF c None] update_keys)
  next
    case (Some tp)
    then have "regex \<in> set (map fst (routes self))"
      by (metis map_of_eq_None_iff option.distinct(1) set_map)
    then show ?thesis
      by (simp add: Mount_merge [OF c Some] update_keys split: prod.splits)
  qed
qed

lemma Mount_distinct:
  assumes "distinct (map fst (routes self))"
  shows "distinct (map fst (routes (snd (Mount self T f ms))))"
proof -
  from Mount_keys [of self T f ms] show ?thesis
  proof
    assume "map fst (routes (snd (Mount self T f ms))) = map fst (routes self)"
    with assms show ?thesis by simp
  next
    assume "\<exists>vs regex. compile_template T = Inr (vs, regex) \<and> map_of (routes self) regex = None
         \<and> fst (Mount self T f ms) = None
         \<and> map fst (routes (snd (Mount self T f ms))) = map fst (routes self) @ [regex]"
    then obtain vs regex where n: "map_of (routes self) regex = None"
      and k: "map fst (routes (snd (Mount self T f ms))) = map fst (routes self) @ [regex]"
      by blast
    from n have "regex \<notin> set (map fst (routes self))" by (simp add: map_of_eq_None_iff)
    with assms k show ?thesis by simp
  qed
qed

lemma Mount_success_present:
  assumes "fst (Mount self T f ms) = None"
  shows "\<exists>vs regex tp. compile_template T = Inr (vs, regex)
           \<and> map_of (routes (snd (Mount self T f ms))) regex = Some tp"
proof (cases "compile_template T")
  case (Inl e)
  with assms show ?thesis by (simp add: Mount_compile_error)
next
  case (Inr p)
  obtain vs regex where p: "p = (vs, regex)" by (cases p)
  note c = Inr [unfolded p]
  show ?thesis
  proof (cases "map_of (routes self) regex")
    case None
    with assms c show ?thesis
      by (cases "RocketTemplatedPath_init T vs f ms")
         (simp_all add: Mount_new [OF c None] update_conv')
  next
    case (Some tp)
    with c show ?thesis
      by (simp add: Mount_merge [OF c Some] update_conv' split: prod.splits)
  qed
qed

lemma Mount_again_keys:
  assumes "compile_template T = Inr (vs, regex)" and "map_of (routes self) regex = Some tp"
  shows "map fst (routes (snd (Mount self T f ms))) = map fst (routes self)"
proof -
  from assms(2) have "regex \<in> set (map fst (routes self))"
    by (metis map_of_eq_None_iff option.distinct(1) set_map)
  then show ?thesis
    by (simp add: Mount_merge [OF assms] update_keys split: prod.splits)
qed

lemma one_entry:
  "distinct (map fst al) \<Longrightarrow> map_of al k = Some v \<Longrightarrow>
   length (filter (\<lambda>kv. fst kv = k) al) = 1"
proof (induction al)
  case Nil
  then show ?case by simp
next
  case (Cons a al)
  show ?case
  proof (cases "fst a = k")
    case True
    with Cons.prems(1) have "k \<notin> fst ` set al" by auto
    then have "filter (\<lambda>kv. fst kv = k) al = []" by (auto simp: filter_empty_conv)
    with True show ?thesis by simp
  next
    case False
    with Cons show ?thesis by (cases a) auto
  qed
qed

text \<open>Mounting one supported method on a compiling template: the route of the pattern
  afterwards, and its method table.\<close>

lemma Mount_one_method:
  assumes c: "compile_template T = Inr (vs, regex)" and m: "m \<in> set POSSIBLE_METHODS"
  shows "\<exists>tp. Mount self T f [m] = (None, self\<lparr>routes := AList.update regex tp (routes self)\<rparr>)
           \<and> (\<forall>m'. Get (HttpMethodsMap tp) m'
                 = (if m' = m then Some f
                    else (case map_of (routes self) regex of
                            None \<Rightarrow> None | Some tp0 \<Rightarrow> Get (HttpMethodsMap tp0) m')))"
proof (cases "map_of (routes self) regex")
  case None
  let ?tp = "\<lparr>TemplatedPathStr = T, TemplatedPathVariables = vs,
              HttpMethodsMap = \<lparr>FunctionsLookup = [(m, f)]\<rparr>\<rparr>"
  have "Mount self T f [m] = (None, self\<lparr>routes := AList.update regex ?tp (routes self)\<rparr>)"
    using m by (simp add: Mount_new [OF c None] RocketTemplatedPath_init_def
                          HttpApiMethods_init_def)
  moreover have "\<forall>m'. Get (HttpMethodsMap ?tp) m'
                 = (if m' = m then Some f
                    else (case map_of (routes self) regex of
                            None \<Rightarrow> None | Some tp0 \<Rightarrow> Get (HttpMethodsMap tp0) m'))"
    by (simp add: None Get_def)
  ultimately show ?thesis by blast
next
  case (Some tp0)
  let ?tp = "tp0\<lparr>HttpMethodsMap :=
                   (HttpMethodsMap tp0)\<lparr>FunctionsLookup :=
                      AList.update m f (FunctionsLookup (HttpMethodsMap tp0))\<rparr>\<rparr>"
  have "Mount self T f [m] = (None, self\<lparr>routes := AList.update regex ?tp (routes self)\<rparr>)"
    using m by (simp add: Mount_merge [OF c Some])
  moreover have "\<forall>m'. Get (HttpMethodsMap ?tp) m'
                 = (if m' = m then Some f
                    else (case map_of (routes self) regex of
                            None \<Rightarrow> None | Some tp0 \<Rightarrow> Get (HttpMethodsMap tp0) m'))"
    by (simp add: Some Get_def update_conv')
  ultimately show ?thesis by blast
qed

lemma Mount_repeat_same:
  assumes c: "compile_template T = Inr (vs, regex)" and m: "m \<in> set POSSIBLE_METHODS"
    and tp: "map_of (routes self) regex = Some tp" and g: "Get (HttpMethodsMap tp) m = Some f"
  shows "Mount self T f [m] = (None, self)"
proof -
  have "AList.update m f (FunctionsLookup (HttpMethodsMap tp)) = FunctionsLookup (HttpMethodsMap tp)"
    using g by (simp add: Get_def update_triv)
  then have "Register (HttpMethodsMap tp) [m] f = (None, HttpMethodsMap tp)"
    using m by simp
  then show ?thesis
    by (simp add: Mount_merge [OF c tp] update_triv [OF tp])
qed


text \<open>
  Claim C5.  \<open>Mount\<close> de-duplicates and merges methods.  In a table without duplicate keys,
  mounting the same template text twice leaves a table without duplicate keys, and when
  the first call succeeded the second adds no entry at all.  In particular, for a template
  that compiles, \<open>Mount(T, h1, [GET])\<close> called twice leaves the table that the first call
  made, with exactly one route under the pattern of \<open>T\<close> and \<open>GET\<close> mapped to \<open>h1\<close>; and
  \<open>Mount(T, h1, [GET])\<close> followed by \<open>Mount(T, h2, [POST])\<close> leaves exactly one route under
  the pattern of \<open>T\<close>, with \<open>GET\<close> mapped to \<open>h1\<close> and \<open>POST\<close> mapped to \<open>h2\<close>.
\<close>

theorem Mount_same_template_merges:
  assumes d: "distinct (map fst (routes self))"
  shows "distinct (map fst (routes (snd (Mount (snd (Mount self T h1 ms1)) T h2 ms2))))
       \<and> (fst (Mount self T h1 ms1) = None \<longrightarrow>
            map fst (routes (snd (Mount (snd (Mount self T h1 ms1)) T h2 ms2)))
              = map fst (routes (snd (Mount self T h1 ms1))))
       \<and> (\<forall>vs regex. compile_template T = Inr (vs, regex) \<longrightarrow>
            (\<exists>s1 tp. Mount self T h1 [''GET''] = (None, s1)
                 \<and> Mount s1 T h1 [''GET''] = (None, s1)
                 \<and> length (filter (\<lambda>kv. fst kv = regex) (routes s1)) = 1
                 \<and> map_of (routes s1) regex = Some tp
                 \<and> Get (HttpMethodsMap tp) ''GET'' = Some h1)
          \<and> (\<exists>s1 s2 tp. Mount self T h1 [''GET''] = (None, s1)
                 \<and> Mount s1 T h2 [''POST''] = (None, s2)
                 \<and> length (filter (\<lambda>kv. fst kv = regex) (routes s2)) = 1
                 \<and> map_of (routes s2) regex = Some tp
                 \<and> Get (HttpMethodsMap tp) ''GET'' = Some h1
                 \<and> Get (HttpMethodsMap tp) ''POST'' = Some h2))"
proof (intro conjI allI impI)
  show "distinct (map fst (routes (snd (Mount (snd (Mount self T h1 ms1)) T h2 ms2))))"
    by (intro Mount_distinct d)
next
  assume "fst (Mount self T h1 ms1) = None"
  from Mount_success_present [OF this] obtain vs regex tp where
    "compile_template T = Inr (vs, regex)"
    "map_of (routes (snd (Mount self T h1 ms1))) regex = Some tp" by blast
  then show "map fst (routes (snd (Mount (snd (Mount self T h1 ms1)) T h2 ms2)))
              = map fst (routes (snd (Mount self T h1 ms1)))"
    by (rule Mount_again_keys)
next
  fix vs regex
  assume c: "compile_template T = Inr (vs, regex)"
  have get: "''GET'' \<in> set POSSIBLE_METHODS" and post: "''POST'' \<in> set POSSIBLE_METHODS"
    by (simp_all add: POSSIBLE_METHODS_def)
  from Mount_one_method [OF c get, of self h1] obtain tp1 where
    m1: "Mount self T h1 [''GET''] = (None, self\<lparr>routes := AList.update regex tp1 (routes self)\<rparr>)"
    and g1: "Get (HttpMethodsMap tp1) ''GET'' = Some h1" by auto
  define s1 where "s1 = self\<lparr>routes := AList.update regex tp1 (routes self)\<rparr>"
  have p1: "map_of (routes s1) regex = Some tp1" by (simp add: s1_def update_conv')
  have d1: "distinct (map fst (routes s1))" by (simp add: s1_def distinct_update d)
  have again: "Mount s1 T h1 [''GET''] = (None, s1)"
    by (rule Mount_repeat_same [OF c get p1 g1])
  have one1: "length (filter (\<lambda>kv. fst kv = regex) (routes s1)) = 1"
    by (rule one_entry [OF d1 p1])
  from m1 again one1 p1 g1
  show "\<exists>s1 tp. Mount self T h1 [''GET''] = (None, s1)
                 \<and> Mount s1 T h1 [''GET''] = (None, s1)
                 \<and> length (filter (\<lambda>kv. fst kv = regex) (routes s1)) = 1
                 \<and> map_of (routes s1) regex = Some tp
                 \<and> Get (HttpMethodsMap tp) ''GET'' = Some h1"
    unfolding s1_def by blast
  from Mount_one_method [OF c post, of s1 h2] obtain tp2 where
    m2: "Mount s1 T h2 [''POST''] = (None, s1\<lparr>routes := AList.update regex tp2 (routes s1)\<rparr>)"
    and g2: "\<forall>m'. Get (HttpMethodsMap tp2) m'
                 = (if m' = ''POST'' then Some h2
                    else (case map_of (routes s1) regex of
                            None \<Rightarrow> None | Some tp0 \<Rightarrow> Get (HttpMethodsMap tp0) m'))"
    by blast
  define s2 where "s2 = s1\<lparr>routes := AList.update regex tp2 (routes s1)\<rparr>"
  have p2: "map_of (routes s2) regex = Some tp2" by (simp add: s2_def update_conv')
  have d2: "distinct (map fst (routes s2))" by (simp add: s2_def distinct_update d1)
  have one2: "length (filter (\<lambda>kv. fst kv = regex) (routes s2)) = 1"
    by (rule one_entry [OF d2 p2])
  have gg: "Get (HttpMethodsMap tp2) ''GET'' = Some h1" using g2 p1 g1 by simp
  have gp: "Get (HttpMethodsMap tp2) ''POST'' = Some h2" using g2 by simp
  from m1 m2 one2 p2 gg gp
  show "\<exists>s1 s2 tp. Mount self T h1 [''GET''] = (None, s1)
                 \<and> Mount s1 T h2 [''POST''] = (None, s2)
                 \<and> length (filter (\<lambda>kv. fst kv = regex) (routes s2)) = 1
                 \<and> map_of (routes s2) regex = Some tp
                 \<and> Get (HttpMethodsMap tp) ''GET'' = Some h1
                 \<and> Get (HttpMethodsMap tp) ''POST'' = Some h2"
    unfolding s1_def s2_def by blast
qed

theorem Mount_same_template_merges_witness:
  "distinct (map fst (routes (RocketRouter_init :: nat RocketRouter)))
   \<and> (\<exists>s1 s2 tp. Mount (RocketRouter_init :: nat RocketRouter) ''/x'' 7 [''GET''] = (None, s1)
          \<and> Mount s1 ''/x'' 8 [''POST''] = (None, s2)
          \<and> length (filter (\<lambda>kv. fst kv = Pattern ''x'' (Atom (Lit (CHR ''x'')))) (routes s2)) = 1
          \<and> map_of (routes s2) (Pattern ''x'' (Atom (Lit (CHR ''x'')))) = Some tp
          \<and> Get (HttpMethodsMap tp) ''GET'' = Some 7
          \<and> Get (HttpMethodsMap tp) ''POST'' = Some 8)"
proof -
  have d: "distinct (map fst (routes (RocketRouter_init :: nat RocketRouter)))"
    by (simp add: RocketRouter_init_def)
  from Mount_same_template_merges [OF d, of "''/x''" "7::nat" "[]" 8 "[]"] compile_template_x
  have "\<exists>s1 s2 tp. Mount (RocketRouter_init :: nat RocketRouter) ''/x'' 7 [''GET''] = (None, s1)
          \<and> Mount s1 ''/x'' 8 [''POST''] = (None, s2)
          \<and> length (filter (\<lambda>kv. fst kv = Pattern ''x'' (Atom (Lit (CHR ''x'')))) (routes s2)) = 1
          \<and> map_of (routes s2) (Pattern ''x'' (Atom (Lit (CHR ''x'')))) = Some tp
          \<and> Get (HttpMethodsMap tp) ''GET'' = Some 7
          \<and> Get (HttpMethodsMap tp) ''POST'' = Some 8"
    by blast
  with d show ?thesis by blast
qed


subsection \<open>Patterns of ordinary characters\<close>














subsection \<open>A router with a single route\<close>

lemma Mount_fresh:
  assumes "compile_template T = Inr (vs, regex)" and "m \<in> set POSSIBLE_METHODS"
  shows "Mount RocketRouter_init T h [m]
           = (None, \<lparr>routes = [(regex, \<lparr>TemplatedPathStr = T, TemplatedPathVariables = vs,
                                        HttpMethodsMap = \<lparr>FunctionsLookup = [(m, h)]\<rparr>\<rparr>)]\<rparr>)"
proof -
  have "map_of (routes (RocketRouter_init :: 'a RocketRouter)) regex = None"
    by (simp add: RocketRouter_init_def)
  from Mount_new [OF assms(1) this] assms(2) show ?thesis
    by (simp add: RocketTemplatedPath_init_def HttpApiMethods_init_def RocketRouter_init_def)
qed

lemma Match_single:
  "fst (Match \<lparr>routes = [(regex, tp)]\<rparr> route m) =
     (if re_match regex route then
        (case map_variables (TemplatedPathVariables tp) (split_on (CHR ''/'') route) [] of
           Inl e \<Rightarrow> Raised e
         | Inr variables \<Rightarrow>
             (case Get (HttpMethodsMap tp) m of
                None \<Rightarrow> Returned (None, Some (Error ''HTTP method is not allowed on this route''
                                                METHOD_NOT_ALLOWED))
              | Some f \<Rightarrow> Returned (Some \<lparr>Vars = variables, Function = f\<rparr>, None)))
      else Returned (None, Some (Error ''no matching routes could be found'' NOT_FOUND)))"
  by (simp add: Match_def matching_templates_def Let_def split: sum.splits option.splits)

lemma GET_supported: "''GET'' \<in> set POSSIBLE_METHODS"
  by (simp add: POSSIBLE_METHODS_def)

subsection \<open>Literal templates\<close>






subsection \<open>Matching is anchored at the start only\<close>

lemma kng_list_compiled:
  "map_sum id (\<lambda>(vs, p). (vs, re_match p ''kng/list/extra'', re_fullmatch p ''kng/list/extra''))
     (compile_template ''/kng/list'') = Inr ([], True, False)"
  by code_simp

text \<open>
  Claim C1.  The claim is that a route is collected only if its pattern matches the entire
  path.  \<open>Match\<close> calls \<open>match\<close>, which anchors the pattern at the start of the path and not
  at its end: after mounting \<open>/kng/list\<close>, the pattern of the only route matches the path
  \<open>kng/list/extra\<close> without matching all of it, and \<open>Match\<close> resolves that path to the
  handler of \<open>/kng/list\<close>.
\<close>

theorem Match_prefix_only:
  "map (\<lambda>(p, tp). (re_match p ''kng/list/extra'', re_fullmatch p ''kng/list/extra''))
       (routes (snd (Mount RocketRouter_init ''/kng/list'' h [''GET''])))
     = [(True, False)]
   \<and> fst (Match (snd (Mount RocketRouter_init ''/kng/list'' h [''GET''])) ''kng/list/extra'' ''GET'')
     = Returned (Some \<lparr>Vars = [], Function = h\<rparr>, None)"
proof -
  from kng_list_compiled obtain p where c: "compile_template ''/kng/list'' = Inr ([], p)"
    and m: "re_match p ''kng/list/extra''" and f: "\<not> re_fullmatch p ''kng/list/extra''"
    by (cases "compile_template ''/kng/list''") auto
  show ?thesis
    by (simp add: Mount_fresh [OF c GET_supported] Match_single m f Get_def)
qed

lemma int64_root_compiled:
  "map_sum id (\<lambda>(vs, p). (vs, re_match p ''42abc'')) (compile_template ''/{n:int64}'')
     = Inr ([\<lparr>Index = 0, Class = py_int, Name = ''n''\<rparr>], True)"
  by code_simp

lemma int_of_42abc: "int_of_str ''42abc'' = Inl ValueError"
  by code_simp

text \<open>
  Claim C7.  The claim is that \<open>Match\<close> never raises.  After mounting \<open>/{n:int64}\<close>, the
  pattern matches the front of the path \<open>42abc\<close>, the route is the only candidate, and
  \<open>int\<close> raises \<open>ValueError\<close> on the whole segment: the call raises instead of returning an
  error value.
\<close>

theorem Match_raises_ValueError:
  "fst (Match (snd (Mount RocketRouter_init ''/{n:int64}'' h [''GET''])) ''42abc'' ''GET'')
     = Raised ValueError"
proof -
  from int64_root_compiled obtain p where
    c: "compile_template ''/{n:int64}'' = Inr ([\<lparr>Index = 0, Class = py_int, Name = ''n''\<rparr>], p)"
    and m: "re_match p ''42abc''"
    by (cases "compile_template ''/{n:int64}''") auto
  show ?thesis
    by (simp add: Mount_fresh [OF c GET_supported] Match_single m int_of_42abc)
qed

text \<open>A second way to an exception: the alternation in the pattern of \<open>float64\<close> is not
  grouped, so its last branch matches a path of digits alone, which has no segment at the
  index of the variable.\<close>

lemma float64_compiled:
  "map_sum id (\<lambda>(vs, p). (vs, re_match p ''42'')) (compile_template ''/items/{x:float64}'')
     = Inr ([\<lparr>Index = 1, Class = py_float, Name = ''x''\<rparr>], True)"
  by code_simp

lemma Match_raises_IndexError:
  "fst (Match (snd (Mount RocketRouter_init ''/items/{x:float64}'' h [''GET''])) ''42'' ''GET'')
     = Raised IndexError"
proof -
  from float64_compiled obtain p where
    c: "compile_template ''/items/{x:float64}''
          = Inr ([\<lparr>Index = 1, Class = py_float, Name = ''x''\<rparr>], p)"
    and m: "re_match p ''42''"
    by (cases "compile_template ''/items/{x:float64}''") auto
  show ?thesis
    by (simp add: Mount_fresh [OF c GET_supported] Match_single m)
qed

subsection \<open>Typed variables\<close>

lemma items_compiled:
  "map_sum id (\<lambda>(vs, p). (vs, re_match p ''items/42'', re_match p ''items/abc'', re_match p ''/items/42''))
     (compile_template ''/items/{n:int64}'')
     = Inr ([\<lparr>Index = 1, Class = py_int, Name = ''n''\<rparr>], True, False, False)"
  by code_simp

lemma int_of_42: "int_of_str ''42'' = Inr 42"
  by code_simp

text \<open>
  Claim C3, as amended.  After mounting \<open>/items/{n:int64}\<close> with \<open>GET\<close>, the request
  \<open>Match("items/42", "GET")\<close>, whose path is written without a leading slash, returns the
  handler with the arguments \<open>{n: 42}\<close>, where 42 is an integer; and
  \<open>Match("items/abc", "GET")\<close> returns the \<open>NotFound\<close> error, since the pattern of \<open>int64\<close>
  does not match: no conversion is attempted and nothing is raised.
\<close>

theorem Match_int64_example:
  "fst (Match (snd (Mount RocketRouter_init ''/items/{n:int64}'' h [''GET''])) ''items/42'' ''GET'')
     = Returned (Some \<lparr>Vars = [(''n'', VInt 42)], Function = h\<rparr>, None)
   \<and> fst (Match (snd (Mount RocketRouter_init ''/items/{n:int64}'' h [''GET''])) ''items/abc'' ''GET'')
     = Returned (None, Some (Error ''no matching routes could be found'' NOT_FOUND))"
proof -
  from items_compiled obtain p where
    c: "compile_template ''/items/{n:int64}''
          = Inr ([\<lparr>Index = 1, Class = py_int, Name = ''n''\<rparr>], p)"
    and m: "re_match p ''items/42''" and n: "\<not> re_match p ''items/abc''"
    by (cases "compile_template ''/items/{n:int64}''") auto
  show ?thesis
    by (simp add: Mount_fresh [OF c GET_supported] Match_single m n int_of_42 Get_def)
qed

text \<open>
  With the leading slash, as the claim was first stated, the path \<open>/items/42\<close> is not found:
  the pattern is built from the non-empty segments of the template and is anchored at the
  start of the path.
\<close>

theorem Match_int64_leading_slash_counterexample:
  "fst (Match (snd (Mount (RocketRouter_init :: nat RocketRouter) ''/items/{n:int64}'' 7 [''GET'']))
          ''/items/42'' ''GET'')
     = Returned (None, Some (Error ''no matching routes could be found'' NOT_FOUND))"
  by code_simp

subsection \<open>Overlapping templates\<close>

lemma two_candidates:
  "length (matching_templates
      (snd (Mount (snd (Mount RocketRouter_init ''/a/{x:str}'' h1 [''GET''])) ''/a/{y:int64}'' h2 [''GET'']))
      ''a/42'') = 2"
  by code_simp

text \<open>
  Claim C4, as amended.  After mounting \<open>/a/{x:str}\<close> and \<open>/a/{y:int64}\<close>, the request
  \<open>Match("a/42", m)\<close>, whose path is written without a leading slash, returns the
  \<open>AmbiguousRoute\<close> error, of HTTP status 300, for any method \<open>m\<close> and any two handlers:
  neither route is picked.
\<close>

theorem Match_ambiguous_example:
  "fst (Match (snd (Mount (snd (Mount RocketRouter_init ''/a/{x:str}'' h1 [''GET'']))
                  ''/a/{y:int64}'' h2 [''GET''])) ''a/42'' m)
     = Returned (None, Some (Error ''to many matched routes found'' MULTIPLE_CHOICES))
   \<and> status_value MULTIPLE_CHOICES = 300"
  by (simp add: Match_def Let_def two_candidates)

text \<open>
  With the leading slash, as the claim was first stated, neither pattern matches the path
  \<open>/a/42\<close>, and the answer is \<open>NotFound\<close>.
\<close>

theorem Match_ambiguous_leading_slash_counterexample:
  "fst (Match (snd (Mount (snd (Mount (RocketRouter_init :: nat RocketRouter) ''/a/{x:str}'' 1 [''GET'']))
                  ''/a/{y:int64}'' 2 [''GET''])) ''/a/42'' ''GET'')
     = Returned (None, Some (Error ''no matching routes could be found'' NOT_FOUND))"
  by code_simp


end
